theory Spec2Isabelle
  imports Main "HOL-Library.Word" "HOL-Library.Sublist"
begin

section \<open>Data model of \<open>local/utils.go\<close>\<close>

text \<open>
  Go strings are byte sequences; \<open>string\<close> (a list of 8-bit characters) models them,
  so \<open>s[1:]\<close> drops one byte. \<open>int64\<close> is a 64-bit word.
\<close>

type_synonym int64 = "64 word"

text \<open>
  \<open>docker.APIPort\<close> and \<open>docker.APIContainers\<close> come from the go-dockerclient
  library; only the fields that \<open>utils.go\<close> reads are kept.
\<close>

record APIPort =
  PrivatePort :: int64
  PublicPort :: int64

record APIContainers =
  Names :: "string list"
  Ports :: "APIPort list"
  State :: string

text \<open>
  Modelled from the spec: the struct \<open>LegacyApp\<close> is declared in another file of the
  package. \<open>utils.go\<close> writes the fields \<open>Name\<close>, \<open>Environment\<close>, \<open>Status\<close>,
  \<open>WebPublicPort\<close> and \<open>DbPublicPort\<close>; these are the fields of the spec's
  ApplicationRecord. A composite literal leaves the fields it does not name at their
  zero value.
\<close>

record LegacyApp =
  Name :: string
  Environment :: string
  WebPublicPort :: int64
  DbPublicPort :: int64
  Status :: string

definition zero_LegacyApp :: LegacyApp where
  "zero_LegacyApp =
     \<lparr>Name = [], Environment = [], WebPublicPort = 0, DbPublicPort = 0, Status = []\<rparr>"

type_synonym apps = "string \<rightharpoonup> LegacyApp"

section \<open>The string functions of Go's standard library that the code calls\<close>

abbreviation dash :: char where
  "dash \<equiv> CHR ''-''"

text \<open>
  \<open>strings.Split(s, "-")\<close>: cut at every dash. The loop of the library finds the
  first separator, emits the bytes before it and goes on with the bytes after it;
  what is left when no separator remains is the last piece (so the empty string
  gives one empty piece).
\<close>

function Split :: "string \<Rightarrow> string list" where
  "Split s =
     (case dropWhile (\<lambda>c. c \<noteq> dash) s of
        [] \<Rightarrow> [s]
      | _ # rest \<Rightarrow> takeWhile (\<lambda>c. c \<noteq> dash) s # Split rest)"
  by pat_completeness auto
termination
proof (relation "measure length")
  show "wf (measure length)" by simp
next
  fix s :: string and x rest
  assume "dropWhile (\<lambda>c. c \<noteq> dash) s = x # rest"
  then have "length (x # rest) \<le> length s"
    by (metis length_dropWhile_le)
  then show "(rest, s) \<in> measure length" by simp
qed

declare Split.simps [simp del]

text \<open>\<open>strings.SplitN(s, "-", 2)\<close>: cut at the first dash only.\<close>

definition SplitN2 :: "string \<Rightarrow> string list" where
  "SplitN2 s =
     (case dropWhile (\<lambda>c. c \<noteq> dash) s of
        [] \<Rightarrow> [s]
      | _ # rest \<Rightarrow> [takeWhile (\<lambda>c. c \<noteq> dash) s, rest])"

text \<open>
  \<open>strings.HasPrefix\<close> and \<open>strings.HasSuffix\<close> are \<open>prefix\<close> and \<open>suffix\<close>.
  \<open>strings.Contains(s, substr)\<close>: \<open>substr\<close> starts at some position of \<open>s\<close>.
\<close>

fun Contains :: "string \<Rightarrow> string \<Rightarrow> bool" where
  "Contains [] substr = (substr = [])"
| "Contains (c # s) substr = (prefix substr (c # s) \<or> Contains s substr)"

section \<open>\<open>FormatPlural\<close>\<close>

definition FormatPlural :: "int \<Rightarrow> string \<Rightarrow> string \<Rightarrow> string" where
  "FormatPlural count single plural = (if count = 1 then single else plural)"

section \<open>\<open>ProcessContainer\<close>\<close>

text \<open>The loop over \<open>container.Ports\<close>, with the variable \<open>publicPort\<close> as accumulator.\<close>

fun publicPort_loop :: "int64 \<Rightarrow> APIPort list \<Rightarrow> int64" where
  "publicPort_loop publicPort [] = publicPort"
| "publicPort_loop publicPort (port # ports) =
     publicPort_loop (if PublicPort port \<noteq> 0 then PublicPort port else publicPort) ports"

text \<open>
  The map \<open>l\<close> is mutated in place by the source; the model returns the new map.
  Reading a missing key of a Go map gives the zero value.
\<close>

definition ProcessContainer :: "apps \<Rightarrow> string \<Rightarrow> APIContainers \<Rightarrow> apps" where
  "ProcessContainer l containerName container =
     (let parts = Split containerName in
      if length parts = 4 then
        let appid = parts ! 1 @ ''-'' @ parts ! 2;
            l = (if l appid = None
                 then l(appid \<mapsto> \<lparr>Name = parts ! 1, Environment = parts ! 2,
                                   WebPublicPort = 0, DbPublicPort = 0,
                                   Status = State container\<rparr>)
                 else l);
            app = (case l appid of Some a \<Rightarrow> a | None \<Rightarrow> zero_LegacyApp);
            publicPort = publicPort_loop 0 (Ports container);
            app = (if parts ! 3 = ''web'' then app\<lparr>WebPublicPort := publicPort\<rparr> else app);
            app = (if parts ! 3 = ''db'' then app\<lparr>DbPublicPort := publicPort\<rparr> else app);
            app = (if State container \<noteq> ''running''
                   then app\<lparr>Status := State container\<rparr> else app)
        in l(appid \<mapsto> app)
      else l)"

section \<open>\<open>SiteList\<close>\<close>

text \<open>
  A Go panic ends the call; it is a value of the model. \<open>s[1:]\<close> on an empty string
  panics (slice bounds out of range), \<open>xs[0]\<close> on an empty slice panics (index out of
  range).
\<close>

datatype panic = IndexOutOfRange | SliceBoundsOutOfRange

text \<open>
  The inner loop of \<open>SiteList\<close> over \<open>container.Names\<close>. The state is the pair of
  maps \<open>legacy\<close> and \<open>local\<close>; each \<open>break\<close> returns it at once.
\<close>

fun SiteList_names ::
  "apps \<times> apps \<Rightarrow> APIContainers \<Rightarrow> string list \<Rightarrow> panic + apps \<times> apps" where
  "SiteList_names (legacy, local) container [] = Inr (legacy, local)"
| "SiteList_names (legacy, local) container (containerName # names) =
     (case containerName of
        [] \<Rightarrow> Inl SliceBoundsOutOfRange
      | _ # name \<Rightarrow>
          if prefix ''legacy-'' name
          then Inr (ProcessContainer legacy name container, local)
          else if suffix ''-db'' name \<or> suffix ''-web'' name
          then Inr (legacy, ProcessContainer local name container)
          else SiteList_names (legacy, local) container names)"

text \<open>The outer loop over the containers.\<close>

fun SiteList_containers ::
  "apps \<times> apps \<Rightarrow> APIContainers list \<Rightarrow> panic + apps \<times> apps" where
  "SiteList_containers st [] = Inr st"
| "SiteList_containers st (container # containers) =
     (case SiteList_names st container (Names container) of
        Inl p \<Rightarrow> Inl p
      | Inr st' \<Rightarrow> SiteList_containers st' containers)"

text \<open>
  \<open>SiteList\<close> starts from two empty maps. What it prints afterwards (the tables) is
  left out: the model returns the two maps that are handed to \<open>RenderAppTable\<close>.
\<close>

definition SiteList :: "APIContainers list \<Rightarrow> panic + apps \<times> apps" where
  "SiteList containers = SiteList_containers (Map.empty, Map.empty) containers"

section \<open>\<open>GetPort\<close> and \<open>GetPodPort\<close>\<close>

text \<open>A Go \<open>error\<close> value, by its message.\<close>

datatype error = Error string

text \<open>The loop of \<open>GetPort\<close> over \<open>ctr.Ports\<close>: \<open>Some\<close> is the \<open>return\<close> inside it.\<close>

fun GetPort_ports :: "APIPort list \<Rightarrow> int64 option" where
  "GetPort_ports [] = None"
| "GetPort_ports (port # ports) =
     (if PublicPort port \<noteq> 0 then Some (PublicPort port) else GetPort_ports ports)"

text \<open>
  The loop of \<open>GetPort\<close> over the containers, and the \<open>return\<close> after it. The result
  is the pair \<open>(publicPort, err)\<close> of the source, \<open>None\<close> for a nil error.
\<close>

fun GetPort_containers ::
  "string \<Rightarrow> APIContainers list \<Rightarrow> panic + int64 \<times> error option" where
  "GetPort_containers name [] = Inr (0, Some (Error (name @ '' container not ready'')))"
| "GetPort_containers name (ctr # containers) =
     (case Names ctr of
        [] \<Rightarrow> Inl IndexOutOfRange
      | n0 # _ \<Rightarrow>
          (case n0 of
             [] \<Rightarrow> Inl SliceBoundsOutOfRange
           | _ # canonical \<Rightarrow>
               if Contains canonical name
               then (case GetPort_ports (Ports ctr) of
                       Some publicPort \<Rightarrow> Inr (publicPort, None)
                     | None \<Rightarrow> GetPort_containers name containers)
               else GetPort_containers name containers))"

text \<open>
  The docker daemon is outside the program: \<open>docker k\<close> is what the \<open>k\<close>-th call of
  \<open>ListContainers\<close> answers (an error or the running containers). The state that
  the calls thread is the number of queries issued so far and the seconds slept.
  \<open>GetDockerClient\<close> only builds the client value and is left out.
\<close>

type_synonym docker = "nat \<Rightarrow> error + APIContainers list"

record world =
  queries :: nat
  slept :: nat

definition GetPort ::
  "docker \<Rightarrow> string \<Rightarrow> world \<Rightarrow> (panic + int64 \<times> error option) \<times> world" where
  "GetPort d name w =
     (let w' = w\<lparr>queries := queries w + 1\<rparr> in
      case d (queries w) of
        Inl err \<Rightarrow> (Inr (0, Some err), w')
      | Inr containers \<Rightarrow> (GetPort_containers name containers, w'))"

text \<open>
  Modelled from the spec: \<open>try.Do\<close> belongs to the package
  \<open>github.com/drud/drud-go/utils/try\<close>, which is not among the sources. Following
  the spec's retry policy it calls the function with the attempt counter, starting
  at 1, and goes on with the next attempt as long as the function asks for a retry
  and reports an error; it returns the error of the last call. The loop has no bound
  of its own, so it is a partial function: \<open>None\<close> is a run that never returns.
\<close>

partial_function (option) try_Do_loop ::
  "(nat \<Rightarrow> 's \<Rightarrow> (panic + bool \<times> error option) \<times> 's) \<Rightarrow> nat \<Rightarrow> 's \<Rightarrow>
   ((panic + error option) \<times> 's) option" where
  "try_Do_loop fn attempt s =
     (case fn attempt s of
        (Inl p, s') \<Rightarrow> Some (Inl p, s')
      | (Inr (retry, err), s') \<Rightarrow>
          if \<not> retry \<or> err = None then Some (Inr err, s')
          else try_Do_loop fn (attempt + 1) s')"

definition try_Do ::
  "(nat \<Rightarrow> 's \<Rightarrow> (panic + bool \<times> error option) \<times> 's) \<Rightarrow> 's \<Rightarrow>
   ((panic + error option) \<times> 's) option" where
  "try_Do fn s = try_Do_loop fn 1 s"

text \<open>
  The closure that \<open>GetPodPort\<close> passes to \<open>try.Do\<close>. It assigns the captured
  variable \<open>publicPort\<close>, which is therefore part of its state.
\<close>

definition GetPodPort_fn ::
  "docker \<Rightarrow> string \<Rightarrow> nat \<Rightarrow> int64 \<times> world \<Rightarrow>
   (panic + bool \<times> error option) \<times> (int64 \<times> world)" where
  "GetPodPort_fn d name attempt st =
     (case GetPort d name (snd st) of
        (Inl p, w) \<Rightarrow> (Inl p, (fst st, w))
      | (Inr (publicPort, err), w) \<Rightarrow>
          (Inr (attempt < 70, err),
           (publicPort, if err \<noteq> None then w\<lparr>slept := slept w + 2\<rparr> else w)))"

definition GetPodPort ::
  "docker \<Rightarrow> string \<Rightarrow> world \<Rightarrow> ((panic + int64 \<times> error option) \<times> world) option" where
  "GetPodPort d name w =
     (case try_Do (GetPodPort_fn d name) (0, w) of
        None \<Rightarrow> None
      | Some (Inl p, (publicPort, w')) \<Rightarrow> Some (Inl p, w')
      | Some (Inr err, (publicPort, w')) \<Rightarrow> Some (Inr (publicPort, err), w'))"

section \<open>\<open>FilterNonLegacyFiles\<close> and \<open>IsValidLegacyEnv\<close>\<close>

text \<open>\<open>os.FileInfo\<close>: the file's name (its method \<open>Name()\<close>), size and kind.\<close>

record FileInfo =
  FileInfo_Name :: string
  FileInfo_Size :: int
  FileInfo_IsDir :: bool

fun IsValidLegacyEnv_loop :: "string \<Rightarrow> string list \<Rightarrow> bool" where
  "IsValidLegacyEnv_loop s [] = False"
| "IsValidLegacyEnv_loop s (e # envs) = (if s = e then True else IsValidLegacyEnv_loop s envs)"

definition IsValidLegacyEnv :: "string \<Rightarrow> bool" where
  "IsValidLegacyEnv s = IsValidLegacyEnv_loop s [''default'', ''staging'', ''production'']"

fun FilterNonLegacyFiles :: "FileInfo list \<Rightarrow> FileInfo list" where
  "FilterNonLegacyFiles [] = []"
| "FilterNonLegacyFiles (v # files) =
     (let name = FileInfo_Name v;
          parts = SplitN2 name
      in if length parts \<noteq> 2 \<or> \<not> IsValidLegacyEnv (parts ! 1)
         then FilterNonLegacyFiles files
         else v # FilterNonLegacyFiles files)"

section \<open>Notions used to state the properties\<close>

text \<open>
  The port that the loop of \<open>ProcessContainer\<close> leaves in \<open>publicPort\<close>, said
  without the loop: the last nonzero public port of the sequence, 0 when there is none.
\<close>

definition last_nonzero_publicPort :: "APIPort list \<Rightarrow> int64" where
  "last_nonzero_publicPort ports =
     (case filter (\<lambda>p. p \<noteq> 0) (map PublicPort ports) of [] \<Rightarrow> 0 | ps \<Rightarrow> last ps)"

text \<open>
  The selection that the specification describes for the aggregator, in its words:
  the first entry whose public port is nonzero (0 when there is none).
\<close>

definition spec_first_nonzero_publicPort :: "APIPort list \<Rightarrow> int64" where
  "spec_first_nonzero_publicPort ports =
     (case filter (\<lambda>p. p \<noteq> 0) (map PublicPort ports) of [] \<Rightarrow> 0 | p # _ \<Rightarrow> p)"

text \<open>
  The two tests that \<open>SiteList\<close> applies to a stripped name before it hands the name
  to \<open>ProcessContainer\<close>: the name carries the legacy prefix, or it ends with one of
  the two role suffixes. The number of segments is not among them.
\<close>

definition SiteList_tests :: "string \<Rightarrow> bool" where
  "SiteList_tests name =
     (prefix ''legacy-'' name \<or> suffix ''-db'' name \<or> suffix ''-web'' name)"

text \<open>
  A name that matches a known scheme, in the words of the specification's classifier:
  with the legacy prefix the name is recognized when it splits into exactly four
  segments; without it, when it ends with \<open>-db\<close> or \<open>-web\<close>.
\<close>

definition spec_recognized :: "string \<Rightarrow> bool" where
  "spec_recognized name =
     (if prefix ''legacy-'' name then length (Split name) = 4
      else suffix ''-db'' name \<or> suffix ''-web'' name)"

text \<open>
  The single attempt of \<open>GetPort\<close> over a snapshot as the specification states it:
  the first container whose canonical name contains the fragment is chosen and its
  first nonzero public port is the result; without such a container, or without such
  a port in it, the attempt is not ready.
\<close>

definition spec_GetPort_attempt :: "string \<Rightarrow> APIContainers list \<Rightarrow> int64 \<times> error option" where
  "spec_GetPort_attempt name containers =
     (case find (\<lambda>ctr. Contains (tl (hd (Names ctr))) name) containers of
        None \<Rightarrow> (0, Some (Error (name @ '' container not ready'')))
      | Some ctr \<Rightarrow>
          (case find (\<lambda>port. PublicPort port \<noteq> 0) (Ports ctr) of
             None \<Rightarrow> (0, Some (Error (name @ '' container not ready'')))
           | Some port \<Rightarrow> (PublicPort port, None)))"

text \<open>
  A fact contributes to the record of a key in one of the two maps of \<open>SiteList\<close>
  (\<open>fst\<close> selects \<open>legacy\<close>, \<open>snd\<close> selects \<open>local\<close>) when aggregating this fact
  alone, from empty maps, leaves a record under that key in that map.
\<close>

definition contributes :: "(apps \<times> apps \<Rightarrow> apps) \<Rightarrow> APIContainers \<Rightarrow> string \<Rightarrow> bool" where
  "contributes sel container appid =
     (case SiteList [container] of Inl p \<Rightarrow> False | Inr maps \<Rightarrow> sel maps appid \<noteq> None)"

text \<open>
  What \<open>GetPort\<close> returns on the attempt that issues the query number \<open>q\<close>: the
  result depends on the answer of the daemon to this query and on nothing else of
  the state.
\<close>

definition attempt_result :: "docker \<Rightarrow> string \<Rightarrow> nat \<Rightarrow> panic + int64 \<times> error option" where
  "attempt_result d name q = fst (GetPort d name \<lparr>queries = q, slept = 0\<rparr>)"

section \<open>Facts about the string functions\<close>

lemma Split_no_dash: "dash \<notin> set s \<Longrightarrow> Split s = [s]"
proof -
  assume "dash \<notin> set s"
  then have d: "dropWhile (\<lambda>c. c \<noteq> dash) s = []"
    by auto
  show ?thesis
    by (subst Split.simps) (simp only: d list.case)
qed

lemma Split_Cons_dash [simp]: "Split (dash # s) = [] # Split s"
  by (subst Split.simps) simp

lemma Split_Nil [simp]: "Split [] = [[]]"
  by (subst Split.simps) simp

lemma Split_append_dash: "dash \<notin> set a \<Longrightarrow> Split (a @ dash # b) = a # Split b"
proof -
  assume a: "dash \<notin> set a"
  then have d: "dropWhile (\<lambda>c. c \<noteq> dash) (a @ dash # b) = dash # b"
    by (auto simp: dropWhile_append3)
  from a have t: "takeWhile (\<lambda>c. c \<noteq> dash) (a @ dash # b) = a"
    by (auto simp: takeWhile_tail)
  show ?thesis
    by (subst Split.simps) (simp add: d t)
qed

lemma Split_not_Nil [simp]: "Split s \<noteq> []"
  by (subst Split.simps) (simp split: list.splits)

lemma Split_Cons_other:
  "x \<noteq> dash \<Longrightarrow> Split (x # s) = (x # hd (Split s)) # tl (Split s)"
proof (cases "dash \<in> set s")
  case True
  then obtain u v where s: "s = u @ dash # v" and u: "dash \<notin> set u"
    by (auto dest: split_list_first)
  assume "x \<noteq> dash"
  with u have "dash \<notin> set (x # u)" by simp
  then have "Split ((x # u) @ dash # v) = (x # u) # Split v"
    by (rule Split_append_dash)
  with s u show ?thesis by (simp add: Split_append_dash)
next
  case False
  assume "x \<noteq> dash"
  with False have "dash \<notin> set (x # s)" by simp
  then have "Split (x # s) = [x # s]" by (rule Split_no_dash)
  with False show ?thesis by (simp add: Split_no_dash)
qed

text \<open>The last piece of a split is what follows the last dash.\<close>

lemma last_Split_append: "last (Split (a @ dash # b)) = last (Split b)"
proof (induction a)
  case Nil
  show ?case by simp
next
  case (Cons x a)
  show ?case
  proof (cases "x = dash")
    case True
    with Cons show ?thesis by simp
  next
    case False
    have ne: "tl (Split (a @ dash # b)) \<noteq> []"
    proof (cases "dash \<in> set a")
      case True
      then obtain u v where "a = u @ dash # v" "dash \<notin> set u"
        by (auto dest: split_list_first)
      then show ?thesis by (simp add: Split_append_dash)
    next
      case False
      then show ?thesis by (simp add: Split_append_dash)
    qed
    with False Cons show ?thesis
      by (simp add: Split_Cons_other last_tl)
  qed
qed

lemma last_Split_suffix:
  "dash \<notin> set r \<Longrightarrow> suffix (dash # r) name \<Longrightarrow> last (Split name) = r"
  by (auto simp: suffix_def last_Split_append Split_no_dash)

section \<open>Facts about \<open>ProcessContainer\<close>\<close>

lemma ProcessContainer_unchanged:
  "length (Split containerName) \<noteq> 4 \<Longrightarrow> ProcessContainer l containerName container = l"
  by (simp add: ProcessContainer_def Let_def)

lemma publicPort_loop_snoc:
  "publicPort_loop acc (ps @ [p]) =
     (if PublicPort p \<noteq> 0 then PublicPort p else publicPort_loop acc ps)"
  by (induction ps arbitrary: acc) auto

lemma publicPort_loop_last: "publicPort_loop 0 ports = last_nonzero_publicPort ports"
  unfolding last_nonzero_publicPort_def
  by (induction ports rule: rev_induct) (auto simp: publicPort_loop_snoc split: list.splits)

text \<open>What one call does to the map, for a name of four segments.\<close>

lemma ProcessContainer_four:
  assumes "Split containerName = [tag, app, env, role]"
  shows "ProcessContainer l containerName container =
     l(app @ ''-'' @ env \<mapsto>
        (let a = (case l (app @ ''-'' @ env) of
                    None \<Rightarrow> \<lparr>Name = app, Environment = env, WebPublicPort = 0,
                              DbPublicPort = 0, Status = State container\<rparr>
                  | Some a \<Rightarrow> a);
             p = publicPort_loop 0 (Ports container)
         in a\<lparr>WebPublicPort := (if role = ''web'' then p else WebPublicPort a),
              DbPublicPort := (if role = ''db'' then p else DbPublicPort a),
              Status := (if State container \<noteq> ''running'' then State container
                         else Status a)\<rparr>))"
  using assms by (auto simp: ProcessContainer_def Let_def split: option.splits)

lemma ProcessContainer_other_key:
  "ProcessContainer l name c k \<noteq> l k \<Longrightarrow>
   length (Split name) = 4 \<and> k = Split name ! 1 @ ''-'' @ Split name ! 2"
  by (auto simp: ProcessContainer_def Let_def split: if_splits)

section \<open>Facts about the loops of \<open>SiteList\<close>\<close>

lemma SiteList_names_first_match:
  assumes "\<forall>n \<in> set pre. n \<noteq> [] \<and> \<not> SiteList_tests (tl n)" "SiteList_tests name"
  shows "SiteList_names (legacy, local) c (pre @ (sep # name) # post) =
         Inr (if prefix ''legacy-'' name then (ProcessContainer legacy name c, local)
              else (legacy, ProcessContainer local name c))"
  using assms
proof (induction pre)
  case Nil
  then show ?case by (auto simp: SiteList_tests_def)
next
  case (Cons n pre)
  then obtain x n' where "n = x # n'" by (cases n) auto
  with Cons show ?case by (auto simp: SiteList_tests_def)
qed

lemma SiteList_names_one_record:
  "SiteList_names (legacy, local) c names = Inr (legacy', local') \<Longrightarrow>
   \<exists>k. (legacy' = legacy \<or> local' = local) \<and>
       (\<forall>k'. k' \<noteq> k \<longrightarrow> legacy' k' = legacy k' \<and> local' k' = local k')"
proof (induction names)
  case Nil
  then show ?case by auto
next
  case (Cons n names)
  show ?case
  proof (cases n)
    case Nil
    with Cons.prems show ?thesis by simp
  next
    case (Cons x name)
    let ?k = "Split name ! 1 @ ''-'' @ Split name ! 2"
    from Cons Cons.prems Cons.IH show ?thesis
      apply (simp split: if_splits)
        apply (rule exI [of _ ?k])
      using ProcessContainer_other_key apply blast
       apply (rule exI [of _ ?k])
      using ProcessContainer_other_key apply blast
      done
  qed
qed

text \<open>A name that ends with a role suffix has that role as its last segment.\<close>

lemma role_of_suffix:
  assumes "suffix ''-db'' name \<or> suffix ''-web'' name"
    and "Split name = [tag, app, env, role]"
  shows "role = ''db'' \<or> role = ''web''"
proof -
  from assms(2) have l: "last (Split name) = role" by simp
  from assms(1) show ?thesis
  proof
    assume "suffix ''-db'' name"
    then have "last (Split name) = ''db''"
      by (intro last_Split_suffix) simp_all
    with l show ?thesis by simp
  next
    assume "suffix ''-web'' name"
    then have "last (Split name) = ''web''"
      by (intro last_Split_suffix) simp_all
    with l show ?thesis by simp
  qed
qed

section \<open>\<open>FormatPlural\<close>: the claim\<close>

text \<open>
  C9. For every count and every pair of words, \<open>FormatPlural\<close> returns the singular
  word when the count is 1 and the plural word for every other count; in particular
  1 gives "site", 0 and 5 give "sites".
\<close>

theorem C9_FormatPlural:
  "(count = 1 \<longrightarrow> FormatPlural count single plural = single) \<and>
   (count \<noteq> 1 \<longrightarrow> FormatPlural count single plural = plural) \<and>
   FormatPlural 1 ''site'' ''sites'' = ''site'' \<and>
   FormatPlural 0 ''site'' ''sites'' = ''sites'' \<and>
   FormatPlural 5 ''site'' ''sites'' = ''sites''"
  by (simp add: FormatPlural_def)

theorem C9_FormatPlural_witness:
  "FormatPlural 1 ''app'' ''apps'' = ''app'' \<and> FormatPlural 2 ''app'' ''apps'' = ''apps'' \<and>
   FormatPlural (- 1) ''app'' ''apps'' = ''apps''"
  using C9_FormatPlural [of 1 "''app''" "''apps''"]
    C9_FormatPlural [of 2 "''app''" "''apps''"]
    C9_FormatPlural [of "- 1" "''app''" "''apps''"]
  by simp

section \<open>\<open>ProcessContainer\<close>: the claims\<close>

text \<open>
  C1, as the specification states it: the port recorded for the role of a fact is the
  first nonzero public port of its published ports, so that the ports 0, 8080, 9090
  give 8080. The loop of \<open>ProcessContainer\<close> has no \<open>break\<close>: on these ports it
  records 9090.
\<close>

theorem C1_first_nonzero_counterexample:
  "map_option WebPublicPort
     (ProcessContainer Map.empty ''legacy-app-env-web''
        \<lparr>Names = [''/legacy-app-env-web''],
         Ports = [\<lparr>PrivatePort = 80, PublicPort = 0\<rparr>,
                  \<lparr>PrivatePort = 80, PublicPort = 8080\<rparr>,
                  \<lparr>PrivatePort = 443, PublicPort = 9090\<rparr>],
         State = ''running''\<rparr> ''app-env'') = Some 9090 \<and>
   spec_first_nonzero_publicPort
     [\<lparr>PrivatePort = 80, PublicPort = 0\<rparr>, \<lparr>PrivatePort = 80, PublicPort = 8080\<rparr>,
      \<lparr>PrivatePort = 443, PublicPort = 9090\<rparr>] = 8080"
proof -
  have "Split ''legacy-app-env-web'' = [''legacy'', ''app'', ''env'', ''web'']"
    by code_simp
  then show ?thesis
    by (simp add: ProcessContainer_four spec_first_nonzero_publicPort_def)
qed

text \<open>
  C1, amended. For every name of four segments, the call leaves a record under the
  key of the name; when the role is \<open>web\<close> its \<open>WebPublicPort\<close>, and when the role
  is \<open>db\<close> its \<open>DbPublicPort\<close>, is the last nonzero public port of the container's
  ports (0 when no port is published): a later nonzero entry replaces an earlier one.
\<close>

theorem C1_last_nonzero:
  assumes "Split containerName = [tag, app, env, role]"
  shows "\<exists>a. ProcessContainer l containerName container (app @ ''-'' @ env) = Some a \<and>
     (role = ''web'' \<longrightarrow> WebPublicPort a = last_nonzero_publicPort (Ports container)) \<and>
     (role = ''db'' \<longrightarrow> DbPublicPort a = last_nonzero_publicPort (Ports container))"
  using assms
  by (simp add: ProcessContainer_four Let_def publicPort_loop_last)

theorem C1_last_nonzero_witness:
  "\<exists>a. ProcessContainer Map.empty ''legacy-app-env-db''
          \<lparr>Names = [''/legacy-app-env-db''],
           Ports = [\<lparr>PrivatePort = 3306, PublicPort = 3306\<rparr>,
                    \<lparr>PrivatePort = 3307, PublicPort = 3307\<rparr>,
                    \<lparr>PrivatePort = 3308, PublicPort = 0\<rparr>],
           State = ''running''\<rparr> ''app-env'' = Some a \<and>
       DbPublicPort a = 3307"
proof -
  have sp: "Split ''legacy-app-env-db'' = [''legacy'', ''app'', ''env'', ''db'']"
    by code_simp
  show ?thesis
    using C1_last_nonzero [OF sp, of Map.empty
        "\<lparr>Names = [''/legacy-app-env-db''],
          Ports = [\<lparr>PrivatePort = 3306, PublicPort = 3306\<rparr>,
                   \<lparr>PrivatePort = 3307, PublicPort = 3307\<rparr>,
                   \<lparr>PrivatePort = 3308, PublicPort = 0\<rparr>],
          State = ''running''\<rparr>"]
    by (simp add: last_nonzero_publicPort_def)
qed

text \<open>
  C7. A name that carries the legacy prefix and does not split at the dashes into
  exactly four segments leaves the map as it was: \<open>ProcessContainer\<close> returns the
  map unchanged, and the loop of \<open>SiteList\<close> over the names ends for this fact
  with both maps unchanged and without an error. The name \<open>x-y-z\<close> of the
  specification (three segments) is left out in the same way.
\<close>

theorem C7_not_four_segments:
  assumes "prefix ''legacy-'' name" and "length (Split name) \<noteq> 4"
  shows "ProcessContainer legacy name container = legacy \<and>
         SiteList_names (legacy, local) container ((sep # name) # names) = Inr (legacy, local) \<and>
         ProcessContainer l ''x-y-z'' container = l"
proof -
  have "Split ''x-y-z'' = [''x'', ''y'', ''z'']" by code_simp
  then have "ProcessContainer l ''x-y-z'' container = l"
    by (simp add: ProcessContainer_unchanged)
  with assms show ?thesis
    by (simp add: ProcessContainer_unchanged)
qed

theorem C7_not_four_segments_witness:
  "prefix ''legacy-'' ''legacy-x-y'' \<and> length (Split ''legacy-x-y'') = 3 \<and>
   ProcessContainer Map.empty ''legacy-x-y''
     \<lparr>Names = [''/legacy-x-y''], Ports = [], State = ''exited''\<rparr> = Map.empty \<and>
   SiteList_names (Map.empty, Map.empty)
     \<lparr>Names = [''/legacy-x-y''], Ports = [], State = ''exited''\<rparr> [''/legacy-x-y''] =
     Inr (Map.empty, Map.empty)"
proof -
  have sp: "Split ''legacy-x-y'' = [''legacy'', ''x'', ''y'']" by code_simp
  have p: "prefix ''legacy-'' ''legacy-x-y''" by simp
  from sp have n: "length (Split ''legacy-x-y'') \<noteq> 4" by simp
  from C7_not_four_segments [OF p n, of Map.empty _ Map.empty "CHR ''/''" "[]"] sp
  show ?thesis by simp
qed

text \<open>
  C10. The role segment is not validated. For a name of exactly four segments whose
  fourth segment is neither \<open>web\<close> nor \<open>db\<close>, the call still writes the record
  under the key made of the second and third segment: a new record has both ports 0
  and the state of the container as status; an existing record keeps its name,
  environment and both ports, and its status is overwritten when the container is
  not running.
\<close>

theorem C10_role_not_validated:
  assumes "Split containerName = [tag, app, env, role]"
    and "role \<noteq> ''web''" and "role \<noteq> ''db''"
  shows "ProcessContainer l containerName container =
     l(app @ ''-'' @ env \<mapsto>
        (case l (app @ ''-'' @ env) of
           None \<Rightarrow> \<lparr>Name = app, Environment = env, WebPublicPort = 0, DbPublicPort = 0,
                     Status = State container\<rparr>
         | Some a \<Rightarrow> a\<lparr>Status := (if State container \<noteq> ''running'' then State container
                                  else Status a)\<rparr>))"
  using assms
  by (auto simp: ProcessContainer_def Let_def split: option.splits)

theorem C10_role_not_validated_witness:
  "ProcessContainer
     [''app-env'' \<mapsto> \<lparr>Name = ''app'', Environment = ''env'', WebPublicPort = 8080,
                        DbPublicPort = 3306, Status = ''running''\<rparr>]
     ''legacy-app-env-cache''
     \<lparr>Names = [''/legacy-app-env-cache''],
      Ports = [\<lparr>PrivatePort = 6379, PublicPort = 6379\<rparr>], State = ''exited''\<rparr> =
   [''app-env'' \<mapsto> \<lparr>Name = ''app'', Environment = ''env'', WebPublicPort = 8080,
                      DbPublicPort = 3306, Status = ''exited''\<rparr>] \<and>
   ProcessContainer Map.empty ''legacy-app-env-cache''
     \<lparr>Names = [''/legacy-app-env-cache''],
      Ports = [\<lparr>PrivatePort = 6379, PublicPort = 6379\<rparr>], State = ''running''\<rparr> =
   [''app-env'' \<mapsto> \<lparr>Name = ''app'', Environment = ''env'', WebPublicPort = 0,
                      DbPublicPort = 0, Status = ''running''\<rparr>]"
proof -
  have sp: "Split ''legacy-app-env-cache'' = [''legacy'', ''app'', ''env'', ''cache'']"
    by code_simp
  have w: "''cache'' \<noteq> ''web''" and d: "''cache'' \<noteq> ''db''" by simp_all
  show ?thesis
    by (simp add: C10_role_not_validated [OF sp w d])
qed

section \<open>\<open>SiteList\<close>: the claims\<close>

text \<open>
  C5, as the specification states it: the first name of a fact that matches a known
  scheme is used, where a name with the legacy prefix matches only when it has four
  segments. For the names \<open>/legacy-x-y\<close>, \<open>/legacy-a-b-web\<close> the first such name
  is the second one, and alone it gives the record \<open>a-b\<close>. \<open>SiteList\<close> stops at the
  first name because of its prefix, \<open>ProcessContainer\<close> finds three segments, and
  the fact gives no record.
\<close>

theorem C5_recognized_name_counterexample:
  "find (\<lambda>n. spec_recognized (tl n)) [''/legacy-x-y'', ''/legacy-a-b-web''] =
     Some ''/legacy-a-b-web'' \<and>
   SiteList
     [\<lparr>Names = [''/legacy-a-b-web''],
       Ports = [\<lparr>PrivatePort = 80, PublicPort = 8080\<rparr>], State = ''running''\<rparr>] =
     Inr ([''a-b'' \<mapsto> \<lparr>Name = ''a'', Environment = ''b'', WebPublicPort = 8080,
                           DbPublicPort = 0, Status = ''running''\<rparr>], Map.empty) \<and>
   SiteList
     [\<lparr>Names = [''/legacy-x-y'', ''/legacy-a-b-web''],
       Ports = [\<lparr>PrivatePort = 80, PublicPort = 8080\<rparr>], State = ''running''\<rparr>] =
     Inr (Map.empty, Map.empty)"
proof -
  have sp: "Split ''legacy-a-b-web'' = [''legacy'', ''a'', ''b'', ''web'']"
    by code_simp
  have sq: "Split ''legacy-x-y'' = [''legacy'', ''x'', ''y'']"
    by code_simp
  from sq have u: "ProcessContainer Map.empty ''legacy-x-y'' c = Map.empty" for c
    by (simp add: ProcessContainer_unchanged)
  show ?thesis
    by (simp add: spec_recognized_def sp sq SiteList_def u ProcessContainer_four [OF sp])
qed

text \<open>
  C5, amended. The names of a fact are scanned in order, and a fact changes at most
  one record: whatever the names, when the loop over them returns, at most one of the
  two maps differs from before, and it differs at one key at most. The scan stops at
  the first name that passes one of the two tests of \<open>SiteList\<close> (legacy prefix, role
  suffix): this name is handed to \<open>ProcessContainer\<close>, and the result does not
  depend on the names after it, which are not scanned (an empty name among them,
  whose slicing would panic, is never reached). This holds also when that name does
  not have four segments: then both maps stay as they were, and a later name of the
  fact is not tried in its place.
\<close>

theorem C5_first_tested_name_wins:
  "(SiteList_names (legacy, local) c names = Inr (legacy', local') \<longrightarrow>
      (\<exists>k. (legacy' = legacy \<or> local' = local) \<and>
           (\<forall>k'. k' \<noteq> k \<longrightarrow> legacy' k' = legacy k' \<and> local' k' = local k'))) \<and>
   ((\<forall>n \<in> set pre. n \<noteq> [] \<and> \<not> SiteList_tests (tl n)) \<and> SiteList_tests name \<longrightarrow>
      SiteList_names (legacy, local) c (pre @ (sep # name) # post) =
        Inr (if prefix ''legacy-'' name then (ProcessContainer legacy name c, local)
             else (legacy, ProcessContainer local name c)) \<and>
      (length (Split name) \<noteq> 4 \<longrightarrow>
         SiteList_names (legacy, local) c (pre @ (sep # name) # post) = Inr (legacy, local)))"
proof (intro conjI impI)
  assume "SiteList_names (legacy, local) c names = Inr (legacy', local')"
  then show "\<exists>k. (legacy' = legacy \<or> local' = local) \<and>
           (\<forall>k'. k' \<noteq> k \<longrightarrow> legacy' k' = legacy k' \<and> local' k' = local k')"
    by (rule SiteList_names_one_record)
next
  assume h: "(\<forall>n \<in> set pre. n \<noteq> [] \<and> \<not> SiteList_tests (tl n)) \<and> SiteList_tests name"
  then show m: "SiteList_names (legacy, local) c (pre @ (sep # name) # post) =
        Inr (if prefix ''legacy-'' name then (ProcessContainer legacy name c, local)
             else (legacy, ProcessContainer local name c))"
    by (intro SiteList_names_first_match) simp_all
  assume "length (Split name) \<noteq> 4"
  with m show "SiteList_names (legacy, local) c (pre @ (sep # name) # post) =
      Inr (legacy, local)"
    by (simp add: ProcessContainer_unchanged)
qed

theorem C5_first_tested_name_wins_witness:
  "SiteList_names (Map.empty, Map.empty)
     \<lparr>Names = [''/proxy'', ''/legacy-a-b-web'', ''''],
      Ports = [\<lparr>PrivatePort = 80, PublicPort = 8080\<rparr>], State = ''running''\<rparr>
     [''/proxy'', ''/legacy-a-b-web'', ''''] =
   Inr ([''a-b'' \<mapsto> \<lparr>Name = ''a'', Environment = ''b'', WebPublicPort = 8080,
                         DbPublicPort = 0, Status = ''running''\<rparr>], Map.empty) \<and>
   SiteList_names (Map.empty, Map.empty)
     \<lparr>Names = [''/proxy'', ''/legacy-x-y'', ''/legacy-a-b-web''],
      Ports = [\<lparr>PrivatePort = 80, PublicPort = 8080\<rparr>], State = ''running''\<rparr>
     [''/proxy'', ''/legacy-x-y'', ''/legacy-a-b-web''] =
   Inr (Map.empty, Map.empty)"
proof -
  have sp: "Split ''legacy-a-b-web'' = [''legacy'', ''a'', ''b'', ''web'']"
    by code_simp
  have sq: "Split ''legacy-x-y'' = [''legacy'', ''x'', ''y'']"
    by code_simp
  have pre: "\<forall>n \<in> set [''/proxy'']. n \<noteq> [] \<and> \<not> SiteList_tests (tl n)"
    by (simp add: SiteList_tests_def suffix_def)
  have k: "SiteList_tests ''legacy-a-b-web''"
    by (simp add: SiteList_tests_def)
  have k': "SiteList_tests ''legacy-x-y''"
    by (simp add: SiteList_tests_def)
  from sq have n: "length (Split ''legacy-x-y'') \<noteq> 4"
    by simp
  from C5_first_tested_name_wins [of Map.empty Map.empty _
      "[''/proxy'', ''/legacy-a-b-web'', '''']"
      "[''a-b'' \<mapsto> \<lparr>Name = ''a'', Environment = ''b'', WebPublicPort = 8080,
                          DbPublicPort = 0, Status = ''running''\<rparr>]" Map.empty
      "[''/proxy'']" "''legacy-a-b-web''" "CHR ''/''" "['''']"] pre k
  have a: "SiteList_names (Map.empty, Map.empty)
     \<lparr>Names = [''/proxy'', ''/legacy-a-b-web'', ''''],
      Ports = [\<lparr>PrivatePort = 80, PublicPort = 8080\<rparr>], State = ''running''\<rparr>
     [''/proxy'', ''/legacy-a-b-web'', ''''] =
   Inr ([''a-b'' \<mapsto> \<lparr>Name = ''a'', Environment = ''b'', WebPublicPort = 8080,
                         DbPublicPort = 0, Status = ''running''\<rparr>], Map.empty)"
    by (simp add: ProcessContainer_four [OF sp])
  let ?c = "\<lparr>Names = [''/proxy'', ''/legacy-x-y'', ''/legacy-a-b-web''],
      Ports = [\<lparr>PrivatePort = 80, PublicPort = 8080\<rparr>], State = ''running''\<rparr>"
  from C5_first_tested_name_wins [of Map.empty Map.empty ?c "[]" Map.empty Map.empty
      "[''/proxy'']" "''legacy-x-y''" "CHR ''/''" "[''/legacy-a-b-web'']"] pre k' n
  have "SiteList_names (Map.empty, Map.empty) ?c
      ([''/proxy''] @ (CHR ''/'' # ''legacy-x-y'') # [''/legacy-a-b-web'']) =
    Inr (Map.empty, Map.empty)"
    by blast
  then have b: "SiteList_names (Map.empty, Map.empty) ?c
     [''/proxy'', ''/legacy-x-y'', ''/legacy-a-b-web''] =
   Inr (Map.empty, Map.empty)"
    by (simp only: append.simps)
  from a b show ?thesis by (rule conjI)
qed

text \<open>
  C2, as the specification states it: a name without the legacy prefix that ends with
  \<open>-db\<close> or \<open>-web\<close> gives a record under the name with the suffix stripped. The fact
  named \<open>/mysite-web\<close> gives no record at all: \<open>ProcessContainer\<close> asks for four
  segments whatever the map.
\<close>

theorem C2_standard_counterexample:
  "SiteList [\<lparr>Names = [''/mysite-web''],
              Ports = [\<lparr>PrivatePort = 80, PublicPort = 8080\<rparr>],
              State = ''running''\<rparr>] = Inr (Map.empty, Map.empty)"
proof -
  have "Split ''mysite-web'' = [''mysite'', ''web'']" by code_simp
  then show ?thesis
    by (simp add: SiteList_def ProcessContainer_def suffix_def)
qed

text \<open>
  C2, amended. A name without the legacy prefix that ends with \<open>-db\<close> or \<open>-web\<close> is
  handed to \<open>ProcessContainer\<close> with the map \<open>local\<close>, and the remaining names are
  not scanned. \<open>ProcessContainer\<close> applies the rule of four segments to it: with
  another number of segments the map is unchanged; with four segments the role (the
  fourth segment) is \<open>db\<close> or \<open>web\<close>, the record is stored under the key made of
  the second and third segment, the port of the role is the one selected from the
  container's ports, and no other key changes.
\<close>

theorem C2_standard_four_segments:
  assumes "\<not> prefix ''legacy-'' name" and "suffix ''-db'' name \<or> suffix ''-web'' name"
  shows "SiteList_names (legacy, local) c ((sep # name) # names) =
           Inr (legacy, ProcessContainer local name c) \<and>
         (length (Split name) \<noteq> 4 \<longrightarrow> ProcessContainer local name c = local) \<and>
         (\<forall>tag app env role. Split name = [tag, app, env, role] \<longrightarrow>
            (role = ''db'' \<or> role = ''web'') \<and>
            (\<exists>a. ProcessContainer local name c (app @ ''-'' @ env) = Some a \<and>
                 (if role = ''web'' then WebPublicPort a else DbPublicPort a) =
                   last_nonzero_publicPort (Ports c)) \<and>
            (\<forall>k. k \<noteq> app @ ''-'' @ env \<longrightarrow> ProcessContainer local name c k = local k))"
proof (intro conjI allI impI)
  show "SiteList_names (legacy, local) c ((sep # name) # names) =
           Inr (legacy, ProcessContainer local name c)"
    using assms by auto
next
  assume "length (Split name) \<noteq> 4"
  then show "ProcessContainer local name c = local"
    by (rule ProcessContainer_unchanged)
next
  fix tag app env role
  assume sp: "Split name = [tag, app, env, role]"
  show r: "role = ''db'' \<or> role = ''web''"
    using assms(2) sp by (rule role_of_suffix)
  then show "\<exists>a. ProcessContainer local name c (app @ ''-'' @ env) = Some a \<and>
                 (if role = ''web'' then WebPublicPort a else DbPublicPort a) =
                   last_nonzero_publicPort (Ports c)"
    by (auto simp: ProcessContainer_four [OF sp] Let_def publicPort_loop_last)
next
  fix tag app env role k
  assume sp: "Split name = [tag, app, env, role]" and "k \<noteq> app @ ''-'' @ env"
  then show "ProcessContainer local name c k = local k"
    by (simp add: ProcessContainer_four [OF sp])
qed

theorem C2_standard_four_segments_witness:
  "SiteList_names (Map.empty, Map.empty)
     \<lparr>Names = [''/drud-site-prod-web''],
      Ports = [\<lparr>PrivatePort = 80, PublicPort = 8080\<rparr>], State = ''running''\<rparr>
     [''/drud-site-prod-web''] =
   Inr (Map.empty,
        ProcessContainer Map.empty ''drud-site-prod-web''
          \<lparr>Names = [''/drud-site-prod-web''],
           Ports = [\<lparr>PrivatePort = 80, PublicPort = 8080\<rparr>], State = ''running''\<rparr>) \<and>
   (\<exists>a. ProcessContainer Map.empty ''drud-site-prod-web''
          \<lparr>Names = [''/drud-site-prod-web''],
           Ports = [\<lparr>PrivatePort = 80, PublicPort = 8080\<rparr>], State = ''running''\<rparr>
          ''site-prod'' = Some a \<and> WebPublicPort a = 8080)"
proof -
  have sp: "Split ''drud-site-prod-web'' = [''drud'', ''site'', ''prod'', ''web'']"
    by code_simp
  have p: "\<not> prefix ''legacy-'' ''drud-site-prod-web''"
    by simp
  have s: "suffix ''-db'' ''drud-site-prod-web'' \<or> suffix ''-web'' ''drud-site-prod-web''"
    by (simp add: suffix_def)
  from C2_standard_four_segments [OF p s, of Map.empty Map.empty
      "\<lparr>Names = [''/drud-site-prod-web''],
        Ports = [\<lparr>PrivatePort = 80, PublicPort = 8080\<rparr>], State = ''running''\<rparr>"
      "CHR ''/''" "[]"] sp
  show ?thesis
    by (simp add: last_nonzero_publicPort_def)
qed

section \<open>\<open>FilterNonLegacyFiles\<close>: the claim\<close>

lemma IsValidLegacyEnv_iff:
  "IsValidLegacyEnv s \<longleftrightarrow> s \<in> {''default'', ''staging'', ''production''}"
  by (auto simp: IsValidLegacyEnv_def)

lemma SplitN2_two:
  "(length (SplitN2 s) = 2 \<and> P (SplitN2 s ! 1)) \<longleftrightarrow>
   (\<exists>project env. s = project @ dash # env \<and> dash \<notin> set project \<and> P env)"
proof
  assume l: "length (SplitN2 s) = 2 \<and> P (SplitN2 s ! 1)"
  then obtain x rest where d: "dropWhile (\<lambda>c. c \<noteq> dash) s = x # rest"
    by (cases "dropWhile (\<lambda>c. c \<noteq> dash) s") (auto simp: SplitN2_def)
  then have x: "x = dash"
    using hd_dropWhile [of "\<lambda>c. c \<noteq> dash" s] by auto
  have "s = takeWhile (\<lambda>c. c \<noteq> dash) s @ dropWhile (\<lambda>c. c \<noteq> dash) s"
    by simp
  with d x have s: "s = takeWhile (\<lambda>c. c \<noteq> dash) s @ dash # rest"
    by simp
  have t: "dash \<notin> set (takeWhile (\<lambda>c. c \<noteq> dash) s)"
    by (auto dest: set_takeWhileD)
  from l d have "P rest"
    by (simp add: SplitN2_def)
  with s t show "\<exists>project env. s = project @ dash # env \<and> dash \<notin> set project \<and> P env"
    by blast
next
  assume "\<exists>project env. s = project @ dash # env \<and> dash \<notin> set project \<and> P env"
  then obtain project env where s: "s = project @ dash # env"
    and p: "dash \<notin> set project" and e: "P env"
    by blast
  from p have d: "dropWhile (\<lambda>c. c \<noteq> dash) (project @ dash # env) = dash # env"
    by (auto simp: dropWhile_append3)
  from s d e show "length (SplitN2 s) = 2 \<and> P (SplitN2 s ! 1)"
    by (simp add: SplitN2_def)
qed

lemma FilterNonLegacyFiles_filter:
  "FilterNonLegacyFiles files =
     filter (\<lambda>v. length (SplitN2 (FileInfo_Name v)) = 2 \<and>
                  IsValidLegacyEnv (SplitN2 (FileInfo_Name v) ! 1)) files"
  by (induction files) (simp_all add: Let_def)

text \<open>
  C8. \<open>FilterNonLegacyFiles\<close> keeps an entry exactly when its name is a first
  component without a dash, a dash, and a second component that is one of
  \<open>default\<close>, \<open>staging\<close>, \<open>production\<close>; the order of the kept entries is that of
  the input. So \<open>proj-staging\<close> passes, \<open>proj-qa\<close> is excluded and a name without a
  dash is excluded.
\<close>

theorem C8_FilterNonLegacyFiles:
  "FilterNonLegacyFiles files =
     filter (\<lambda>v. \<exists>project env. FileInfo_Name v = project @ dash # env \<and>
                   dash \<notin> set project \<and>
                   env \<in> {''default'', ''staging'', ''production''}) files \<and>
   FilterNonLegacyFiles
     [\<lparr>FileInfo_Name = ''proj-staging'', FileInfo_Size = 0, FileInfo_IsDir = True\<rparr>,
      \<lparr>FileInfo_Name = ''proj-qa'', FileInfo_Size = 0, FileInfo_IsDir = True\<rparr>,
      \<lparr>FileInfo_Name = ''nodash'', FileInfo_Size = 0, FileInfo_IsDir = True\<rparr>] =
     [\<lparr>FileInfo_Name = ''proj-staging'', FileInfo_Size = 0, FileInfo_IsDir = True\<rparr>]"
proof
  have eq: "(\<lambda>v. length (SplitN2 (FileInfo_Name v)) = 2 \<and>
             IsValidLegacyEnv (SplitN2 (FileInfo_Name v) ! 1)) =
        (\<lambda>v. \<exists>project env. FileInfo_Name v = project @ dash # env \<and>
                   dash \<notin> set project \<and>
                   env \<in> {''default'', ''staging'', ''production''})"
    by (rule ext) (simp only: IsValidLegacyEnv_iff, rule SplitN2_two)
  show "FilterNonLegacyFiles files =
     filter (\<lambda>v. \<exists>project env. FileInfo_Name v = project @ dash # env \<and>
                   dash \<notin> set project \<and>
                   env \<in> {''default'', ''staging'', ''production''}) files"
    by (simp only: FilterNonLegacyFiles_filter eq)
next
  show "FilterNonLegacyFiles
     [\<lparr>FileInfo_Name = ''proj-staging'', FileInfo_Size = 0, FileInfo_IsDir = True\<rparr>,
      \<lparr>FileInfo_Name = ''proj-qa'', FileInfo_Size = 0, FileInfo_IsDir = True\<rparr>,
      \<lparr>FileInfo_Name = ''nodash'', FileInfo_Size = 0, FileInfo_IsDir = True\<rparr>] =
     [\<lparr>FileInfo_Name = ''proj-staging'', FileInfo_Size = 0, FileInfo_IsDir = True\<rparr>]"
    by (simp add: SplitN2_def IsValidLegacyEnv_def)
qed

theorem C8_FilterNonLegacyFiles_witness:
  "filter (\<lambda>v. \<exists>project env. FileInfo_Name v = project @ dash # env \<and>
                   dash \<notin> set project \<and>
                   env \<in> {''default'', ''staging'', ''production''})
     [\<lparr>FileInfo_Name = ''site-production'', FileInfo_Size = 4096, FileInfo_IsDir = True\<rparr>,
      \<lparr>FileInfo_Name = ''site-my-default'', FileInfo_Size = 4096, FileInfo_IsDir = True\<rparr>,
      \<lparr>FileInfo_Name = ''-default'', FileInfo_Size = 1, FileInfo_IsDir = False\<rparr>] =
     [\<lparr>FileInfo_Name = ''site-production'', FileInfo_Size = 4096, FileInfo_IsDir = True\<rparr>,
      \<lparr>FileInfo_Name = ''-default'', FileInfo_Size = 1, FileInfo_IsDir = False\<rparr>]"
proof -
  have e: "FilterNonLegacyFiles
     [\<lparr>FileInfo_Name = ''site-production'', FileInfo_Size = 4096, FileInfo_IsDir = True\<rparr>,
      \<lparr>FileInfo_Name = ''site-my-default'', FileInfo_Size = 4096, FileInfo_IsDir = True\<rparr>,
      \<lparr>FileInfo_Name = ''-default'', FileInfo_Size = 1, FileInfo_IsDir = False\<rparr>] =
     [\<lparr>FileInfo_Name = ''site-production'', FileInfo_Size = 4096, FileInfo_IsDir = True\<rparr>,
      \<lparr>FileInfo_Name = ''-default'', FileInfo_Size = 1, FileInfo_IsDir = False\<rparr>]"
    by (simp add: SplitN2_def IsValidLegacyEnv_def)
  show ?thesis
    using C8_FilterNonLegacyFiles [THEN conjunct1, of
     "[\<lparr>FileInfo_Name = ''site-production'', FileInfo_Size = 4096, FileInfo_IsDir = True\<rparr>,
      \<lparr>FileInfo_Name = ''site-my-default'', FileInfo_Size = 4096, FileInfo_IsDir = True\<rparr>,
      \<lparr>FileInfo_Name = ''-default'', FileInfo_Size = 1, FileInfo_IsDir = False\<rparr>]"]
    unfolding e by (rule sym)
qed

section \<open>\<open>GetPort\<close>: the claim\<close>

lemma GetPort_ports_find:
  "GetPort_ports ports = map_option PublicPort (find (\<lambda>port. PublicPort port \<noteq> 0) ports)"
  by (induction ports) auto

lemma find_append_case:
  "find P (xs @ ys) = (case find P xs of None \<Rightarrow> find P ys | Some x \<Rightarrow> Some x)"
  by (induction xs) auto

lemma GetPort_containers_scan:
  assumes "\<forall>ctr \<in> set containers. Names ctr \<noteq> [] \<and> hd (Names ctr) \<noteq> []"
  shows "GetPort_containers name containers =
     Inr (case find (\<lambda>port. PublicPort port \<noteq> 0)
                 (concat (map Ports
                    (filter (\<lambda>ctr. Contains (tl (hd (Names ctr))) name) containers))) of
            Some port \<Rightarrow> (PublicPort port, None)
          | None \<Rightarrow> (0, Some (Error (name @ '' container not ready''))))"
  using assms
proof (induction containers)
  case Nil
  show ?case by simp
next
  case (Cons ctr containers)
  from Cons.prems obtain n0 ns where n: "Names ctr = n0 # ns"
    by (cases "Names ctr") auto
  with Cons.prems obtain x canonical where c: "n0 = x # canonical"
    by (cases n0) auto
  from Cons.prems have "\<forall>ctr \<in> set containers. Names ctr \<noteq> [] \<and> hd (Names ctr) \<noteq> []"
    by simp
  then have IH: "GetPort_containers name containers =
     Inr (case find (\<lambda>port. PublicPort port \<noteq> 0)
                 (concat (map Ports
                    (filter (\<lambda>ctr. Contains (tl (hd (Names ctr))) name) containers))) of
            Some port \<Rightarrow> (PublicPort port, None)
          | None \<Rightarrow> (0, Some (Error (name @ '' container not ready''))))"
    by (rule Cons.IH)
  show ?case
    by (simp add: n c IH GetPort_ports_find find_append_case split: option.splits)
qed

text \<open>
  C6, as the specification states it: the attempt settles on the first container
  whose canonical name contains the fragment and answers from that container alone.
  In the source a matching container without a published port does not end the
  scan: with such a container first and a second matching container that publishes
  32768, \<open>GetPort\<close> returns 32768 where the stated rule gives "not ready".
\<close>

theorem C6_first_container_counterexample:
  "GetPort
     (\<lambda>k. Inr [\<lparr>Names = [''/site-web-old''],
                  Ports = [\<lparr>PrivatePort = 80, PublicPort = 0\<rparr>], State = ''running''\<rparr>,
                \<lparr>Names = [''/site-web''],
                  Ports = [\<lparr>PrivatePort = 80, PublicPort = 32768\<rparr>], State = ''running''\<rparr>])
     ''site-web'' \<lparr>queries = 0, slept = 0\<rparr> =
     (Inr (32768, None), \<lparr>queries = 1, slept = 0\<rparr>) \<and>
   spec_GetPort_attempt ''site-web''
     [\<lparr>Names = [''/site-web-old''],
        Ports = [\<lparr>PrivatePort = 80, PublicPort = 0\<rparr>], State = ''running''\<rparr>,
      \<lparr>Names = [''/site-web''],
        Ports = [\<lparr>PrivatePort = 80, PublicPort = 32768\<rparr>], State = ''running''\<rparr>] =
     (0, Some (Error ''site-web container not ready''))"
  by (simp add: GetPort_def spec_GetPort_attempt_def)

text \<open>
  C6, amended. On a snapshot whose containers all have a non-empty first name, one
  attempt of \<open>GetPort\<close> issues one query and returns the first nonzero public port
  met when the ports of the containers whose canonical name contains the fragment
  are read in order, container after container (a matching container without a
  nonzero port is passed over); when there is no such port it returns port 0 and the
  error "<fragment> container not ready".
\<close>

theorem C6_GetPort_attempt:
  assumes "d (queries w) = Inr containers"
    and "\<forall>ctr \<in> set containers. Names ctr \<noteq> [] \<and> hd (Names ctr) \<noteq> []"
  shows "GetPort d name w =
     (Inr (case find (\<lambda>port. PublicPort port \<noteq> 0)
                  (concat (map Ports
                     (filter (\<lambda>ctr. Contains (tl (hd (Names ctr))) name) containers))) of
             Some port \<Rightarrow> (PublicPort port, None)
           | None \<Rightarrow> (0, Some (Error (name @ '' container not ready'')))),
      w\<lparr>queries := queries w + 1\<rparr>)"
  using assms
  by (simp add: GetPort_def GetPort_containers_scan)

theorem C6_GetPort_attempt_witness:
  "GetPort
     (\<lambda>k. Inr [\<lparr>Names = [''/router''],
                  Ports = [\<lparr>PrivatePort = 80, PublicPort = 80\<rparr>], State = ''running''\<rparr>,
                \<lparr>Names = [''/site-db'', ''/alias''],
                  Ports = [\<lparr>PrivatePort = 3306, PublicPort = 0\<rparr>,
                           \<lparr>PrivatePort = 3306, PublicPort = 32770\<rparr>,
                           \<lparr>PrivatePort = 3307, PublicPort = 32771\<rparr>],
                  State = ''running''\<rparr>])
     ''site-db'' \<lparr>queries = 4, slept = 8\<rparr> =
     (Inr (32770, None), \<lparr>queries = 5, slept = 8\<rparr>) \<and>
   GetPort (\<lambda>k. Inr []) ''site-db'' \<lparr>queries = 0, slept = 0\<rparr> =
     (Inr (0, Some (Error ''site-db container not ready'')), \<lparr>queries = 1, slept = 0\<rparr>)"
proof -
  let ?cs = "[\<lparr>Names = [''/router''],
                  Ports = [\<lparr>PrivatePort = 80, PublicPort = 80\<rparr>], State = ''running''\<rparr>,
                \<lparr>Names = [''/site-db'', ''/alias''],
                  Ports = [\<lparr>PrivatePort = 3306, PublicPort = 0\<rparr>,
                           \<lparr>PrivatePort = 3306, PublicPort = 32770\<rparr>,
                           \<lparr>PrivatePort = 3307, PublicPort = 32771\<rparr>],
                  State = ''running''\<rparr>]"
  have wf: "\<forall>ctr \<in> set ?cs. Names ctr \<noteq> [] \<and> hd (Names ctr) \<noteq> []"
    by simp
  have wf0: "\<forall>ctr \<in> set ([] :: APIContainers list). Names ctr \<noteq> [] \<and> hd (Names ctr) \<noteq> []"
    by simp
  from C6_GetPort_attempt [of "\<lambda>k. Inr ?cs" "\<lparr>queries = 4, slept = 8\<rparr>" ?cs "''site-db''", OF refl wf]
    C6_GetPort_attempt [of "\<lambda>k. Inr []" "\<lparr>queries = 0, slept = 0\<rparr>" "[]" "''site-db''", OF refl wf0]
  show ?thesis
    by simp
qed

section \<open>Status precedence: the claim\<close>

text \<open>
  What the loop over the names does depends on the names alone, not on the maps: it
  panics, or leaves both maps alone, or hands one name to \<open>ProcessContainer\<close> with
  one of the maps.
\<close>

lemma SiteList_names_cases:
  "(\<exists>p. \<forall>lg lc. SiteList_names (lg, lc) c ns = Inl p) \<or>
   (\<forall>lg lc. SiteList_names (lg, lc) c ns = Inr (lg, lc)) \<or>
   (\<exists>name. \<forall>lg lc. SiteList_names (lg, lc) c ns = Inr (ProcessContainer lg name c, lc)) \<or>
   (\<exists>name. \<forall>lg lc. SiteList_names (lg, lc) c ns = Inr (lg, ProcessContainer lc name c))"
proof (induction ns)
  case Nil
  show ?case by simp
next
  case (Cons n ns)
  show ?case
  proof (cases n)
    case Nil
    then show ?thesis by simp
  next
    case (Cons x name)
    show ?thesis
    proof (cases "prefix ''legacy-'' name")
      case True
      with Cons have "\<forall>lg lc. SiteList_names (lg, lc) c (n # ns) =
          Inr (ProcessContainer lg name c, lc)"
        by simp
      then show ?thesis by blast
    next
      case False
      note nl = this
      show ?thesis
      proof (cases "suffix ''-db'' name \<or> suffix ''-web'' name")
        case True
        with Cons nl have "\<forall>lg lc. SiteList_names (lg, lc) c (n # ns) =
            Inr (lg, ProcessContainer lc name c)"
          by simp
        then show ?thesis by blast
      next
        case False
        with Cons nl have "\<forall>lg lc. SiteList_names (lg, lc) c (n # ns) =
            SiteList_names (lg, lc) c ns"
          by simp
        with Cons.IH show ?thesis by simp
      qed
    qed
  qed
qed

lemma ProcessContainer_status:
  "ProcessContainer Map.empty name c k \<noteq> None \<Longrightarrow>
   \<exists>app'. ProcessContainer l name c k = Some app' \<and>
     Status app' = (if State c \<noteq> ''running'' then State c
                    else (case l k of None \<Rightarrow> State c | Some a \<Rightarrow> Status a))"
  by (auto simp: ProcessContainer_def Let_def split: if_splits option.splits)

lemma ProcessContainer_no_key:
  "ProcessContainer Map.empty name c k = None \<Longrightarrow> ProcessContainer l name c k = l k"
  by (auto simp: ProcessContainer_def Let_def split: if_splits)

lemma contributes_step:
  assumes sel: "sel = fst \<or> sel = snd"
    and run: "SiteList_names st c (Names c) = Inr st'"
  shows "(contributes sel c k \<longrightarrow>
           (\<exists>app'. sel st' k = Some app' \<and>
              Status app' = (if State c \<noteq> ''running'' then State c
                             else (case sel st k of None \<Rightarrow> State c | Some a \<Rightarrow> Status a)))) \<and>
         (\<not> contributes sel c k \<longrightarrow> sel st' k = sel st k)"
proof -
  obtain lg lc where st: "st = (lg, lc)" by (cases st)
  have con: "contributes s c k \<longleftrightarrow>
      (case SiteList_names (Map.empty, Map.empty) c (Names c) of
         Inl p \<Rightarrow> False | Inr maps \<Rightarrow> s maps k \<noteq> None)" for s
    by (simp add: contributes_def SiteList_def split: sum.splits)
  from SiteList_names_cases [of c "Names c"] show ?thesis
  proof (elim disjE exE)
    fix p assume "\<forall>lg lc. SiteList_names (lg, lc) c (Names c) = Inl p"
    with run st show ?thesis by simp
  next
    assume a: "\<forall>lg lc. SiteList_names (lg, lc) c (Names c) = Inr (lg, lc)"
    with run st have "st' = st" by simp
    moreover from a sel have "\<not> contributes sel c k" by (auto simp: con)
    ultimately show ?thesis by simp
  next
    fix name
    assume a: "\<forall>lg lc. SiteList_names (lg, lc) c (Names c) =
        Inr (ProcessContainer lg name c, lc)"
    with run st have st': "st' = (ProcessContainer lg name c, lc)" by simp
    from a have c1: "contributes fst c k \<longleftrightarrow> ProcessContainer Map.empty name c k \<noteq> None"
      and c2: "\<not> contributes snd c k"
      by (simp_all add: con)
    from sel show ?thesis
    proof
      assume "sel = fst"
      with c1 st st' show ?thesis
        using ProcessContainer_status [of name c k lg] ProcessContainer_no_key [of name c k lg]
        by auto
    next
      assume "sel = snd"
      with c2 st st' show ?thesis by simp
    qed
  next
    fix name
    assume a: "\<forall>lg lc. SiteList_names (lg, lc) c (Names c) =
        Inr (lg, ProcessContainer lc name c)"
    with run st have st': "st' = (lg, ProcessContainer lc name c)" by simp
    from a have c1: "contributes snd c k \<longleftrightarrow> ProcessContainer Map.empty name c k \<noteq> None"
      and c2: "\<not> contributes fst c k"
      by (simp_all add: con)
    from sel show ?thesis
    proof
      assume "sel = snd"
      with c1 st st' show ?thesis
        using ProcessContainer_status [of name c k lc] ProcessContainer_no_key [of name c k lc]
        by auto
    next
      assume "sel = fst"
      with c2 st st' show ?thesis by simp
    qed
  qed
qed


lemma SiteList_containers_status:
  assumes sel: "sel = fst \<or> sel = snd"
    and run: "SiteList_containers st cs = Inr st'"
  shows "((\<exists>c \<in> set cs. contributes sel c k \<and> State c \<noteq> ''running'') \<longrightarrow>
            (\<exists>app c'. sel st' k = Some app \<and> c' \<in> set cs \<and> contributes sel c' k \<and>
               State c' \<noteq> ''running'' \<and> Status app = State c')) \<and>
         ((\<forall>c \<in> set cs. contributes sel c k \<longrightarrow> State c = ''running'') \<longrightarrow>
            (\<forall>a. sel st k = Some a \<longrightarrow> (\<exists>a'. sel st' k = Some a' \<and> Status a' = Status a)))"
  using run
proof (induction cs arbitrary: st)
  case Nil
  then show ?case by simp
next
  case (Cons c cs)
  from Cons.prems obtain st1 where s1: "SiteList_names st c (Names c) = Inr st1"
    and rest: "SiteList_containers st1 cs = Inr st'"
    by (auto split: sum.splits)
  note step = contributes_step [OF sel s1, of k]
  note IH = Cons.IH [OF rest]
  show ?case
  proof (intro conjI impI allI)
    assume ex: "\<exists>c \<in> set (c # cs). contributes sel c k \<and> State c \<noteq> ''running''"
    show "\<exists>app c'. sel st' k = Some app \<and> c' \<in> set (c # cs) \<and> contributes sel c' k \<and>
               State c' \<noteq> ''running'' \<and> Status app = State c'"
    proof (cases "\<exists>c \<in> set cs. contributes sel c k \<and> State c \<noteq> ''running''")
      case True
      with IH obtain app c' where "sel st' k = Some app" "c' \<in> set cs"
        "contributes sel c' k" "State c' \<noteq> ''running''" "Status app = State c'"
        by blast
      then show ?thesis by auto
    next
      case False
      with ex have c: "contributes sel c k" "State c \<noteq> ''running''" by auto
      with step obtain a1 where a1: "sel st1 k = Some a1" "Status a1 = State c"
        by auto
      from False have "\<forall>c \<in> set cs. contributes sel c k \<longrightarrow> State c = ''running''"
        by blast
      with IH a1 obtain a' where "sel st' k = Some a'" "Status a' = Status a1"
        by blast
      with a1 c show ?thesis by auto
    qed
  next
    fix a
    assume all: "\<forall>c \<in> set (c # cs). contributes sel c k \<longrightarrow> State c = ''running''"
      and a: "sel st k = Some a"
    from all a step obtain a1 where a1: "sel st1 k = Some a1" "Status a1 = Status a"
      by (cases "contributes sel c k") auto
    from all have "\<forall>c \<in> set cs. contributes sel c k \<longrightarrow> State c = ''running''"
      by simp
    with IH a1 obtain a' where "sel st' k = Some a'" "Status a' = Status a1"
      by blast
    with a1 show "\<exists>a'. sel st' k = Some a' \<and> Status a' = Status a" by simp
  qed
qed

lemma SiteList_containers_returns:
  "(\<exists>st'. SiteList_containers st cs = Inr st') \<longleftrightarrow>
   (\<forall>c \<in> set cs. \<exists>st'. SiteList_names (Map.empty, Map.empty) c (Names c) = Inr st')"
proof (induction cs arbitrary: st)
  case Nil
  show ?case by simp
next
  case (Cons c cs)
  obtain lg lc where st: "st = (lg, lc)" by (cases st)
  from SiteList_names_cases [of c "Names c"] show ?case
  proof (elim disjE exE)
    fix p assume a: "\<forall>lg lc. SiteList_names (lg, lc) c (Names c) = Inl p"
    then show ?thesis by (simp add: st)
  next
    assume a: "\<forall>lg lc. SiteList_names (lg, lc) c (Names c) = Inr (lg, lc)"
    then show ?thesis using Cons.IH [of "(lg, lc)"] by (simp add: st)
  next
    fix name
    assume a: "\<forall>lg lc. SiteList_names (lg, lc) c (Names c) =
        Inr (ProcessContainer lg name c, lc)"
    then show ?thesis using Cons.IH [of "(ProcessContainer lg name c, lc)"] by (simp add: st)
  next
    fix name 
    assume a: "\<forall>lg lc. SiteList_names (lg, lc) c (Names c) =
        Inr (lg, ProcessContainer lc name c)"
    then show ?thesis using Cons.IH [of "(lg, ProcessContainer lc name c)"] by (simp add: st)
  qed
qed

lemma ProcessContainer_running_keeps:
  assumes "l appid = Some app" and "State c = ''running''"
  shows "\<exists>app'. ProcessContainer l name c appid = Some app' \<and> Status app' = Status app"
  using assms by (auto simp: ProcessContainer_def Let_def)

lemma Split_acme_web:
  "Split ''legacy-acme-prod-web'' = [''legacy'', ''acme'', ''prod'', ''web'']"
  by code_simp

lemma Split_acme_db:
  "Split ''legacy-acme-prod-db'' = [''legacy'', ''acme'', ''prod'', ''db'']"
  by code_simp

lemma SiteList_web_db:
  "SiteList
     [\<lparr>Names = [''/legacy-acme-prod-web''],
       Ports = [\<lparr>PrivatePort = 80, PublicPort = 8080\<rparr>], State = ''running''\<rparr>,
      \<lparr>Names = [''/legacy-acme-prod-db''],
       Ports = [\<lparr>PrivatePort = 3306, PublicPort = 3306\<rparr>], State = ''exited''\<rparr>] =
   Inr ([''acme-prod'' \<mapsto> \<lparr>Name = ''acme'', Environment = ''prod'', WebPublicPort = 8080,
                             DbPublicPort = 3306, Status = ''exited''\<rparr>], Map.empty)"
  by (simp add: SiteList_def ProcessContainer_four [OF Split_acme_web]
      ProcessContainer_four [OF Split_acme_db])

lemma SiteList_db_web:
  "SiteList
     [\<lparr>Names = [''/legacy-acme-prod-db''],
       Ports = [\<lparr>PrivatePort = 3306, PublicPort = 3306\<rparr>], State = ''exited''\<rparr>,
      \<lparr>Names = [''/legacy-acme-prod-web''],
       Ports = [\<lparr>PrivatePort = 80, PublicPort = 8080\<rparr>], State = ''running''\<rparr>] =
   Inr ([''acme-prod'' \<mapsto> \<lparr>Name = ''acme'', Environment = ''prod'', WebPublicPort = 8080,
                             DbPublicPort = 3306, Status = ''exited''\<rparr>], Map.empty)"
  by (simp add: SiteList_def ProcessContainer_four [OF Split_acme_web]
      ProcessContainer_four [OF Split_acme_db])

text \<open>
  C4. Take an aggregation pass that returns, one of its two maps, and a key to which a
  fact of the pass with a state other than \<open>running\<close> contributes. Then the record
  of the key exists and its status is the state of a contributing fact that is not
  running. The same holds for every other sequence made of the same facts (so for
  every order of processing), and such a pass returns as well. A call of
  \<open>ProcessContainer\<close> for a running container never changes the status of a record
  that exists. One running web fact and one exited db fact of the same application
  give the status \<open>exited\<close> in both orders.
\<close>

theorem C4_status_precedence:
  assumes "sel = fst \<or> sel = snd"
    and "set order2 = set order1"
    and "SiteList order1 = Inr maps1"
    and "c \<in> set order1" and "contributes sel c appid" and "State c \<noteq> ''running''"
  shows "(\<exists>app c'. sel maps1 appid = Some app \<and> c' \<in> set order1 \<and>
            contributes sel c' appid \<and> State c' \<noteq> ''running'' \<and> Status app = State c') \<and>
         (\<exists>maps2 app c'. SiteList order2 = Inr maps2 \<and> sel maps2 appid = Some app \<and>
            c' \<in> set order1 \<and> contributes sel c' appid \<and> State c' \<noteq> ''running'' \<and>
            Status app = State c') \<and>
         (\<forall>l app name r. l appid = Some app \<and> State r = ''running'' \<longrightarrow>
            (\<exists>app'. ProcessContainer l name r appid = Some app' \<and> Status app' = Status app)) \<and>
         SiteList
           [\<lparr>Names = [''/legacy-acme-prod-web''],
             Ports = [\<lparr>PrivatePort = 80, PublicPort = 8080\<rparr>], State = ''running''\<rparr>,
            \<lparr>Names = [''/legacy-acme-prod-db''],
             Ports = [\<lparr>PrivatePort = 3306, PublicPort = 3306\<rparr>], State = ''exited''\<rparr>] =
           Inr ([''acme-prod'' \<mapsto> \<lparr>Name = ''acme'', Environment = ''prod'',
                    WebPublicPort = 8080, DbPublicPort = 3306, Status = ''exited''\<rparr>],
                Map.empty) \<and>
         SiteList
           [\<lparr>Names = [''/legacy-acme-prod-db''],
             Ports = [\<lparr>PrivatePort = 3306, PublicPort = 3306\<rparr>], State = ''exited''\<rparr>,
            \<lparr>Names = [''/legacy-acme-prod-web''],
             Ports = [\<lparr>PrivatePort = 80, PublicPort = 8080\<rparr>], State = ''running''\<rparr>] =
           Inr ([''acme-prod'' \<mapsto> \<lparr>Name = ''acme'', Environment = ''prod'',
                    WebPublicPort = 8080, DbPublicPort = 3306, Status = ''exited''\<rparr>],
                Map.empty)"
proof (intro conjI)
  have ex1: "\<exists>c \<in> set order1. contributes sel c appid \<and> State c \<noteq> ''running''"
    using assms(4-6) by blast
  from assms(3) have run1: "SiteList_containers (Map.empty, Map.empty) order1 = Inr maps1"
    by (simp add: SiteList_def)
  from SiteList_containers_status [OF assms(1) run1, of appid] ex1
  show "\<exists>app c'. sel maps1 appid = Some app \<and> c' \<in> set order1 \<and>
            contributes sel c' appid \<and> State c' \<noteq> ''running'' \<and> Status app = State c'"
    by blast
  from run1 have "\<forall>c \<in> set order1.
      \<exists>st'. SiteList_names (Map.empty, Map.empty) c (Names c) = Inr st'"
    using SiteList_containers_returns [of "(Map.empty, Map.empty)" order1] by blast
  with assms(2) have "\<forall>c \<in> set order2.
      \<exists>st'. SiteList_names (Map.empty, Map.empty) c (Names c) = Inr st'"
    by simp
  then obtain maps2 where run2: "SiteList_containers (Map.empty, Map.empty) order2 = Inr maps2"
    using SiteList_containers_returns [of "(Map.empty, Map.empty)" order2] by blast
  from ex1 assms(2)
  have ex2: "\<exists>c \<in> set order2. contributes sel c appid \<and> State c \<noteq> ''running''"
    by simp
  from SiteList_containers_status [OF assms(1) run2, of appid] ex2
  obtain app c' where "sel maps2 appid = Some app" "c' \<in> set order2"
    "contributes sel c' appid" "State c' \<noteq> ''running''" "Status app = State c'"
    by blast
  with run2 assms(2)
  show "\<exists>maps2 app c'. SiteList order2 = Inr maps2 \<and> sel maps2 appid = Some app \<and>
            c' \<in> set order1 \<and> contributes sel c' appid \<and> State c' \<noteq> ''running'' \<and>
            Status app = State c'"
    unfolding SiteList_def by blast
  show "\<forall>l app name r. l appid = Some app \<and> State r = ''running'' \<longrightarrow>
            (\<exists>app'. ProcessContainer l name r appid = Some app' \<and> Status app' = Status app)"
    using ProcessContainer_running_keeps by blast
qed (rule SiteList_web_db, rule SiteList_db_web)

theorem C4_status_precedence_witness:
  "\<exists>maps2 app.
     SiteList
       [\<lparr>Names = [''/legacy-acme-prod-db''],
         Ports = [\<lparr>PrivatePort = 3306, PublicPort = 3306\<rparr>], State = ''restarting''\<rparr>,
        \<lparr>Names = [''/legacy-acme-prod-web''],
         Ports = [\<lparr>PrivatePort = 80, PublicPort = 8080\<rparr>], State = ''running''\<rparr>] =
       Inr maps2 \<and>
     fst maps2 ''acme-prod'' = Some app \<and> Status app = ''restarting''"
proof -
  let ?web = "\<lparr>Names = [''/legacy-acme-prod-web''],
         Ports = [\<lparr>PrivatePort = 80, PublicPort = 8080\<rparr>], State = ''running''\<rparr>"
  let ?db = "\<lparr>Names = [''/legacy-acme-prod-db''],
         Ports = [\<lparr>PrivatePort = 3306, PublicPort = 3306\<rparr>], State = ''restarting''\<rparr>"
  have sel: "(fst :: apps \<times> apps \<Rightarrow> apps) = fst \<or> (fst :: apps \<times> apps \<Rightarrow> apps) = snd"
    by simp
  have perm: "set [?db, ?web] = set [?web, ?db]"
    by auto
  have run1: "SiteList [?web, ?db] =
      Inr ([''acme-prod'' \<mapsto> \<lparr>Name = ''acme'', Environment = ''prod'',
              WebPublicPort = 8080, DbPublicPort = 3306, Status = ''restarting''\<rparr>],
           Map.empty)"
    by (simp add: SiteList_def ProcessContainer_four [OF Split_acme_web]
      ProcessContainer_four [OF Split_acme_db])
  have mem: "?db \<in> set [?web, ?db]"
    by simp
  have con: "contributes fst ?db ''acme-prod''"
    by (simp add: contributes_def SiteList_def ProcessContainer_four [OF Split_acme_db])
  have nr: "State ?db \<noteq> ''running''"
    by simp
  from C4_status_precedence [OF sel perm run1 mem con nr]
  have "\<exists>maps2 app c'. SiteList [?db, ?web] = Inr maps2 \<and> fst maps2 ''acme-prod'' = Some app \<and>
            c' \<in> set [?web, ?db] \<and> contributes fst c' ''acme-prod'' \<and>
            State c' \<noteq> ''running'' \<and> Status app = State c'"
    by (rule conjunct2 [THEN conjunct1])
  then show ?thesis
    by auto
qed

section \<open>\<open>GetPodPort\<close>: the claim\<close>

lemma GetPort_attempt_result:
  "GetPort d name w = (attempt_result d name (queries w), w\<lparr>queries := queries w + 1\<rparr>)"
  by (simp add: GetPort_def attempt_result_def Let_def split: sum.splits)

lemma GetPodPort_fn_fail:
  "attempt_result d name (queries w) = Inr (p, Some e) \<Longrightarrow>
   GetPodPort_fn d name a (pp, w) =
     (Inr (a < 70, Some e), (p, w\<lparr>queries := queries w + 1, slept := slept w + 2\<rparr>))"
  by (simp add: GetPodPort_fn_def GetPort_attempt_result)

lemma GetPodPort_fn_find:
  "attempt_result d name (queries w) = Inr (p, None) \<Longrightarrow>
   GetPodPort_fn d name a (pp, w) = (Inr (a < 70, None), (p, w\<lparr>queries := queries w + 1\<rparr>))"
  by (simp add: GetPodPort_fn_def GetPort_attempt_result)

lemma GetPodPort_fn_panic:
  "attempt_result d name (queries w) = Inl pn \<Longrightarrow>
   GetPodPort_fn d name a (pp, w) = (Inl pn, (pp, w\<lparr>queries := queries w + 1\<rparr>))"
  by (simp add: GetPodPort_fn_def GetPort_attempt_result)

text \<open>Failed attempts below the 70th lead to the next attempt.\<close>

lemma try_Do_loop_failures:
  assumes "a + j \<le> 70"
    and "\<forall>i<j. \<exists>p e. attempt_result d name (queries w + i) = Inr (p, Some e)"
  shows "\<exists>pp'. try_Do_loop (GetPodPort_fn d name) a (pp, w) =
     try_Do_loop (GetPodPort_fn d name) (a + j)
       (pp', w\<lparr>queries := queries w + j, slept := slept w + 2 * j\<rparr>)"
  using assms
proof (induction j arbitrary: a pp w)
  case 0
  show ?case by (rule exI [of _ pp]) simp
next
  case (Suc j)
  from Suc.prems(2) obtain p e where f: "attempt_result d name (queries w) = Inr (p, Some e)"
    by force
  let ?w = "w\<lparr>queries := queries w + 1, slept := slept w + 2\<rparr>"
  from Suc.prems(1) have lt: "a < 70" by simp
  have step: "try_Do_loop (GetPodPort_fn d name) a (pp, w) =
      try_Do_loop (GetPodPort_fn d name) (a + 1) (p, ?w)"
    by (subst try_Do_loop.simps) (simp add: GetPodPort_fn_fail [OF f] lt)
  from Suc.prems(1) have b: "(a + 1) + j \<le> 70" by simp
  have "\<forall>i<j. \<exists>p e. attempt_result d name (queries ?w + i) = Inr (p, Some e)"
  proof (intro allI impI)
    fix i assume "i < j"
    then have "Suc i < Suc j" by simp
    with Suc.prems(2) have "\<exists>p e. attempt_result d name (queries w + Suc i) = Inr (p, Some e)"
      by blast
    then show "\<exists>p e. attempt_result d name (queries ?w + i) = Inr (p, Some e)"
      by simp
  qed
  from Suc.IH [OF b this, of p] obtain pp' where
    "try_Do_loop (GetPodPort_fn d name) (a + 1) (p, ?w) =
     try_Do_loop (GetPodPort_fn d name) (a + 1 + j)
       (pp', ?w\<lparr>queries := queries ?w + j, slept := slept ?w + 2 * j\<rparr>)"
    by blast
  with step show ?case
    by (intro exI [of _ pp']) (simp add: add.commute add.left_commute)
qed

lemma try_Do_loop_find:
  assumes "attempt_result d name (queries w) = Inr (p, None)"
  shows "try_Do_loop (GetPodPort_fn d name) a (pp, w) =
     Some (Inr None, (p, w\<lparr>queries := queries w + 1\<rparr>))"
  by (subst try_Do_loop.simps) (simp add: GetPodPort_fn_find [OF assms])

lemma try_Do_loop_last:
  assumes "attempt_result d name (queries w) = Inr (p, Some e)" and "\<not> a < 70"
  shows "try_Do_loop (GetPodPort_fn d name) a (pp, w) =
     Some (Inr (Some e), (p, w\<lparr>queries := queries w + 1, slept := slept w + 2\<rparr>))"
  by (subst try_Do_loop.simps) (simp add: GetPodPort_fn_fail [OF assms(1)] assms(2))

lemma try_Do_loop_panic:
  assumes "attempt_result d name (queries w) = Inl pn"
  shows "try_Do_loop (GetPodPort_fn d name) a (pp, w) =
     Some (Inl pn, (pp, w\<lparr>queries := queries w + 1\<rparr>))"
  by (subst try_Do_loop.simps) (simp add: GetPodPort_fn_panic [OF assms])

text \<open>From any attempt up to the 70th the loop returns, within the remaining attempts.\<close>

lemma try_Do_loop_returns:
  assumes "a + n = 70"
  shows "\<exists>r pp' w'. try_Do_loop (GetPodPort_fn d name) a (pp, w) = Some (r, (pp', w')) \<and>
     queries w < queries w' \<and> queries w' \<le> queries w + n + 1"
  using assms
proof (induction n arbitrary: a pp w)
  case 0
  then have a: "\<not> a < 70" by simp
  show ?case
  proof (cases "attempt_result d name (queries w)")
    case (Inl pn)
    then show ?thesis by (simp add: try_Do_loop_panic)
  next
    case (Inr pe)
    then show ?thesis
      by (cases pe; cases "snd pe") (simp_all add: try_Do_loop_find try_Do_loop_last [OF _ a])
  qed
next
  case (Suc n)
  then have a: "a < 70" and b: "(a + 1) + n = 70" by simp_all
  show ?case
  proof (cases "attempt_result d name (queries w)")
    case (Inl pn)
    then show ?thesis by (simp add: try_Do_loop_panic)
  next
    case (Inr pe)
    obtain p eo where pe: "pe = (p, eo)" by (cases pe)
    show ?thesis
    proof (cases eo)
      case None
      with Inr pe show ?thesis by (simp add: try_Do_loop_find)
    next
      case (Some e)
      let ?w = "w\<lparr>queries := queries w + 1, slept := slept w + 2\<rparr>"
      from Inr pe Some have f: "attempt_result d name (queries w) = Inr (p, Some e)"
        by simp
      have step: "try_Do_loop (GetPodPort_fn d name) a (pp, w) =
          try_Do_loop (GetPodPort_fn d name) (a + 1) (p, ?w)"
        by (subst try_Do_loop.simps) (simp add: GetPodPort_fn_fail [OF f] a)
      from Suc.IH [OF b, of p ?w] obtain r pp' w' where
        "try_Do_loop (GetPodPort_fn d name) (a + 1) (p, ?w) = Some (r, (pp', w'))"
        "queries ?w < queries w'" "queries w' \<le> queries ?w + n + 1"
        by blast
      with step show ?thesis by simp
    qed
  qed
qed

text \<open>
  C3. With \<open>try.Do\<close> as the specification describes it, \<open>GetPodPort\<close> always
  returns, after at least one and at most 70 queries. When the first \<open>j\<close> attempts
  fail (\<open>j < 70\<close>) and the next one finds a port, the call returns this port with no
  error after \<open>j + 1\<close> queries, having slept 2 seconds for each failure and not
  after the success; for \<open>j = 69\<close> this is the success on the 70th attempt. When all
  70 attempts fail, the call returns what the 70th attempt returned, its error
  included, after exactly 70 queries.
\<close>

theorem C3_GetPodPort_bounded_retry:
  "(\<exists>r w'. GetPodPort d name w = Some (r, w') \<and>
      queries w < queries w' \<and> queries w' \<le> queries w + 70) \<and>
   (\<forall>j p. j < 70 \<and>
      (\<forall>i<j. \<exists>p' e. attempt_result d name (queries w + i) = Inr (p', Some e)) \<and>
      attempt_result d name (queries w + j) = Inr (p, None) \<longrightarrow>
      GetPodPort d name w =
        Some (Inr (p, None), w\<lparr>queries := queries w + j + 1, slept := slept w + 2 * j\<rparr>)) \<and>
   (\<forall>p e.
      (\<forall>i<69. \<exists>p' e'. attempt_result d name (queries w + i) = Inr (p', Some e')) \<and>
      attempt_result d name (queries w + 69) = Inr (p, Some e) \<longrightarrow>
      GetPodPort d name w =
        Some (Inr (p, Some e), w\<lparr>queries := queries w + 70, slept := slept w + 140\<rparr>))"
proof (intro conjI allI impI)
  from try_Do_loop_returns [of 1 69 d name 0 w] obtain r pp' w' where
    "try_Do_loop (GetPodPort_fn d name) 1 (0, w) = Some (r, (pp', w'))"
    "queries w < queries w'" "queries w' \<le> queries w + 69 + 1"
    by auto
  then show "\<exists>r w'. GetPodPort d name w = Some (r, w') \<and>
      queries w < queries w' \<and> queries w' \<le> queries w + 70"
    by (cases r) (simp_all add: GetPodPort_def try_Do_def)
next
  fix j p
  assume h: "j < 70 \<and>
      (\<forall>i<j. \<exists>p' e. attempt_result d name (queries w + i) = Inr (p', Some e)) \<and>
      attempt_result d name (queries w + j) = Inr (p, None)"
  let ?w = "w\<lparr>queries := queries w + j, slept := slept w + 2 * j\<rparr>"
  from h have b: "1 + j \<le> 70" by simp
  from h have f: "\<forall>i<j. \<exists>p e. attempt_result d name (queries w + i) = Inr (p, Some e)"
    by blast
  from try_Do_loop_failures [OF b f, of 0] obtain pp' where
    l: "try_Do_loop (GetPodPort_fn d name) 1 (0, w) =
        try_Do_loop (GetPodPort_fn d name) (1 + j) (pp', ?w)"
    by blast
  from h have "attempt_result d name (queries ?w) = Inr (p, None)" by simp
  then have "try_Do_loop (GetPodPort_fn d name) (1 + j) (pp', ?w) =
      Some (Inr None, (p, ?w\<lparr>queries := queries ?w + 1\<rparr>))"
    by (rule try_Do_loop_find)
  with l show "GetPodPort d name w =
        Some (Inr (p, None), w\<lparr>queries := queries w + j + 1, slept := slept w + 2 * j\<rparr>)"
    by (simp add: GetPodPort_def try_Do_def)
next
  fix p e
  assume h: "(\<forall>i<69. \<exists>p' e'. attempt_result d name (queries w + i) = Inr (p', Some e')) \<and>
      attempt_result d name (queries w + 69) = Inr (p, Some e)"
  let ?w = "w\<lparr>queries := queries w + 69, slept := slept w + 2 * 69\<rparr>"
  have b: "1 + 69 \<le> (70 :: nat)" by simp
  from h have f: "\<forall>i<69. \<exists>p e. attempt_result d name (queries w + i) = Inr (p, Some e)"
    by blast
  from try_Do_loop_failures [OF b f, of 0] obtain pp' where
    l: "try_Do_loop (GetPodPort_fn d name) 1 (0, w) =
        try_Do_loop (GetPodPort_fn d name) (1 + 69) (pp', ?w)"
    by blast
  from h have a: "attempt_result d name (queries ?w) = Inr (p, Some e)" by simp
  have n: "\<not> (1 + 69 :: nat) < 70" by simp
  from try_Do_loop_last [OF a n, of pp'] l
  show "GetPodPort d name w =
        Some (Inr (p, Some e), w\<lparr>queries := queries w + 70, slept := slept w + 140\<rparr>)"
    by (simp add: GetPodPort_def try_Do_def)
qed

theorem C3_GetPodPort_bounded_retry_witness:
  "GetPodPort
     (\<lambda>q. if q < 69 then Inr []
          else Inr [\<lparr>Names = [''/site-web''],
                      Ports = [\<lparr>PrivatePort = 80, PublicPort = 32768\<rparr>],
                      State = ''running''\<rparr>])
     ''site-web'' \<lparr>queries = 0, slept = 0\<rparr> =
     Some (Inr (32768, None), \<lparr>queries = 70, slept = 138\<rparr>) \<and>
   GetPodPort (\<lambda>q. Inr []) ''site-web'' \<lparr>queries = 0, slept = 0\<rparr> =
     Some (Inr (0, Some (Error ''site-web container not ready'')),
           \<lparr>queries = 70, slept = 140\<rparr>)"
proof -
  let ?d = "\<lambda>q :: nat. if q < 69 then Inr []
          else (Inr [\<lparr>Names = [''/site-web''],
                      Ports = [\<lparr>PrivatePort = 80, PublicPort = 32768\<rparr>],
                      State = ''running''\<rparr>] :: error + APIContainers list)"
  let ?e = "\<lambda>q :: nat. (Inr [] :: error + APIContainers list)"
  let ?w = "\<lparr>queries = 0, slept = 0\<rparr>"
  have f1: "\<forall>i<69. \<exists>p' e. attempt_result ?d ''site-web'' (queries ?w + i) = Inr (p', Some e)"
    by (simp add: attempt_result_def GetPort_def)
  have s1: "attempt_result ?d ''site-web'' (queries ?w + 69) = Inr (32768, None)"
    by (simp add: attempt_result_def GetPort_def)
  have f2: "\<forall>i<69. \<exists>p' e'. attempt_result ?e ''site-web'' (queries ?w + i) = Inr (p', Some e')"
    by (simp add: attempt_result_def GetPort_def)
  have s2: "attempt_result ?e ''site-web'' (queries ?w + 69) =
      Inr (0, Some (Error ''site-web container not ready''))"
    by (simp add: attempt_result_def GetPort_def)
  have l: "(69 :: nat) < 70" by simp
  from C3_GetPodPort_bounded_retry [of ?d "''site-web''" ?w] l f1 s1
  have a: "GetPodPort ?d ''site-web'' ?w =
      Some (Inr (32768, None), ?w\<lparr>queries := queries ?w + 69 + 1, slept := slept ?w + 2 * 69\<rparr>)"
    by blast
  from C3_GetPodPort_bounded_retry [of ?e "''site-web''" ?w] f2 s2
  have b: "GetPodPort ?e ''site-web'' ?w =
      Some (Inr (0, Some (Error ''site-web container not ready'')),
            ?w\<lparr>queries := queries ?w + 70, slept := slept ?w + 140\<rparr>)"
    by blast
  from a b show ?thesis by simp
qed

end
